theory Spec2Isabelle
  imports Main "HOL-Library.AList"
begin

section \<open>JavaScript values\<close>

text \<open>
  The values that flow through \<open>src/index.js\<close>: \<open>undefined\<close>, \<open>null\<close>, booleans,
  numbers and strings. A number is \<open>NaN\<close>, an infinity (\<open>Infty True\<close> is
  \<open>Infinity\<close>, \<open>Infty False\<close> is \<open>-Infinity\<close>) or an integer; \<open>Fin n\<close> stands for the
  integer \<open>n\<close> where a double holds it exactly, and \<open>Fin 0\<close> for both zeros. Fractions,
  and objects held as parameter values, are not modelled.
\<close>

datatype jsnum = NaN | Fin int | Infty bool

datatype jsval = JUndefined | JNull | JBool bool | JNum jsnum | JStr string

text \<open>The operator \<open>typeof\<close>.\<close>

fun js_typeof :: "jsval \<Rightarrow> string" where
  "js_typeof JUndefined = ''undefined''"
| "js_typeof JNull = ''object''"
| "js_typeof (JBool b) = ''boolean''"
| "js_typeof (JNum x) = ''number''"
| "js_typeof (JStr s) = ''string''"

text \<open>Truthiness, as tested by \<open>if (v)\<close>.\<close>

fun truthy :: "jsval \<Rightarrow> bool" where
  "truthy JUndefined = False"
| "truthy JNull = False"
| "truthy (JBool b) = b"
| "truthy (JNum NaN) = False"
| "truthy (JNum (Fin n)) = (n \<noteq> 0)"
| "truthy (JNum (Infty b)) = True"
| "truthy (JStr s) = (s \<noteq> [])"

text \<open>Strict equality \<open>===\<close> on these values: \<open>NaN\<close> equals nothing, itself included.\<close>

definition strict_eq :: "jsval \<Rightarrow> jsval \<Rightarrow> bool" where
  "strict_eq v w = (v = w \<and> v \<noteq> JNum NaN)"

text \<open>Conversion to a string, as a template literal \<open>`${v}`\<close> performs it.\<close>

definition digit_char :: "nat \<Rightarrow> char" where
  "digit_char d = char_of (48 + d)"

fun show_nat :: "nat \<Rightarrow> string" where
  "show_nat n = (if n < 10 then [digit_char n] else show_nat (n div 10) @ [digit_char (n mod 10)])"

declare show_nat.simps [simp del]

text \<open>
  Rounding an integer to the nearest double, ties to the even significand, as the
  conversion of a parsed numeral and the subtraction of two doubles do: integers below
  \<open>2 ^ 53\<close> in magnitude are exact, larger ones keep 53 significant bits, and a result of
  \<open>2 ^ 1024\<close> or more is an infinity.
\<close>

function bit_length :: "int \<Rightarrow> nat" where
  "bit_length n = (if n \<le> 0 then 0 else Suc (bit_length (n div 2)))"
  by pat_completeness auto
termination
  by (relation "measure nat") auto

declare bit_length.simps [simp del]

definition round_int :: "int \<Rightarrow> int" where
  "round_int m =
     (let e = bit_length m - 53; q = m div 2 ^ e; r = m mod 2 ^ e; h = 2 ^ (e - 1)
      in (if h < r \<or> (r = h \<and> odd q) then q + 1 else q) * 2 ^ e)"

definition to_double :: "int \<Rightarrow> jsnum" where
  "to_double z =
     (if \<bar>z\<bar> < 2 ^ 53 then Fin z
      else let r = round_int \<bar>z\<bar> in
           if 2 ^ 1024 \<le> r then Infty (0 < z)
           else Fin (if 0 < z then r else - r))"

text \<open>
  \<open>Number.prototype.toString\<close> on a positive integer \<open>x\<close>. Below \<open>2 ^ 53\<close> it is the
  decimal numeral. From there on it is built from the shortest digit string \<open>s\<close> (of
  \<open>k\<close> digits) and the exponent \<open>n\<close> such that \<open>s * 10 ^ (n - k)\<close> rounds to \<open>x\<close>, the
  closest to \<open>x\<close> among the shortest, and the even \<open>s\<close> among two equally close: the digits
  followed by zeros while \<open>n\<close> is at most 21, and the exponent form beyond.
\<close>

definition digit_candidates :: "int \<Rightarrow> nat \<Rightarrow> nat \<Rightarrow> (int \<times> nat) list" where
  "digit_candidates x k n =
     (if n < k then []
      else filter (\<lambda>(s, n). 10 ^ (k - 1) \<le> s \<and> s < 10 ^ k \<and>
                            to_double (s * 10 ^ (n - k)) = Fin x)
             [(x div 10 ^ (n - k), n), (x div 10 ^ (n - k) + 1, n)])"

definition distance :: "int \<Rightarrow> nat \<Rightarrow> int \<times> nat \<Rightarrow> int" where
  "distance x k c = (case c of (s, n) \<Rightarrow> \<bar>s * 10 ^ (n - k) - x\<bar>)"

definition closer :: "int \<Rightarrow> nat \<Rightarrow> int \<times> nat \<Rightarrow> int \<times> nat \<Rightarrow> int \<times> nat" where
  "closer x k c d =
     (if distance x k d < distance x k c \<or> (distance x k d = distance x k c \<and> even (fst d))
      then d else c)"

fun shortest_digits :: "int \<Rightarrow> nat \<Rightarrow> nat \<Rightarrow> int \<times> nat" where
  "shortest_digits x 0 k = (x, length (show_nat (nat x)))"
| "shortest_digits x (Suc fuel) k =
     (let len = length (show_nat (nat x)) in
      case digit_candidates x k len @ digit_candidates x k (len + 1) of
        [] \<Rightarrow> shortest_digits x fuel (k + 1)
      | c # rest \<Rightarrow> foldl (closer x k) c rest)"

definition show_double :: "int \<Rightarrow> string" where
  "show_double x =
     (if x < 2 ^ 53 then show_nat (nat x)
      else case shortest_digits x (length (show_nat (nat x))) 1 of
        (s, n) \<Rightarrow>
          (let ds = show_nat (nat s); k = length ds in
           if n \<le> 21 then ds @ replicate (n - k) (CHR ''0'')
           else take 1 ds @ (if k = 1 then [] else CHR ''.'' # drop 1 ds) @ ''e+'' @
                show_nat (n - 1)))"

fun num_to_string :: "jsnum \<Rightarrow> string" where
  "num_to_string NaN = ''NaN''"
| "num_to_string (Infty b) = (if b then ''Infinity'' else ''-Infinity'')"
| "num_to_string (Fin n) =
     (if n < 0 then CHR ''-'' # show_double (- n) else show_double n)"

fun to_string :: "jsval \<Rightarrow> string" where
  "to_string JUndefined = ''undefined''"
| "to_string JNull = ''null''"
| "to_string (JBool b) = (if b then ''true'' else ''false'')"
| "to_string (JNum x) = num_to_string x"
| "to_string (JStr s) = s"

subsection \<open>Objects\<close>

text \<open>
  A plain object is an association list from the names of its own properties to their
  values; where a list repeats a name, the first binding is the property.
  \<open>get_prop\<close> reads an own property, and gives \<open>undefined\<close> when there is none: the names
  this module reads are either fixed names that \<open>Object.prototype\<close> does not define, or
  names taken from \<open>Object.keys\<close> of the same object. \<open>set_prop\<close> is \<open>o[k] = v\<close> for
  such a fixed name: it replaces the binding of \<open>k\<close> or appends a new one.
  \<open>Object.keys\<close> lists each own name once.
\<close>

type_synonym obj = "(string \<times> jsval) list"

definition get_prop :: "obj \<Rightarrow> string \<Rightarrow> jsval" where
  "get_prop ob k = (case map_of ob k of None \<Rightarrow> JUndefined | Some v \<Rightarrow> v)"

definition set_prop :: "string \<Rightarrow> jsval \<Rightarrow> obj \<Rightarrow> obj" where
  "set_prop k v ob = AList.update k v ob"

definition object_keys :: "obj \<Rightarrow> string list" where
  "object_keys ob = remdups (map fst ob)"

text \<open>
  \<open>o[k] = v\<close> for a computed name \<open>k\<close>, on an object created by the literal \<open>{}\<close>. Such
  an object inherits the accessor \<open>__proto__\<close> from \<open>Object.prototype\<close>: assigning under
  that name runs the setter (which changes the prototype when \<open>v\<close> is null, and does
  nothing for the other values modelled) and creates no own property.
\<close>

definition assign_prop :: "string \<Rightarrow> jsval \<Rightarrow> obj \<Rightarrow> obj" where
  "assign_prop k v ob = (if k = ''__proto__'' then ob else AList.update k v ob)"

subsection \<open>String.prototype.split\<close>

text \<open>
  \<open>s.split(sep)\<close> for a string separator: scanning from the left, every occurrence of
  \<open>sep\<close> that does not overlap an earlier one ends a segment; the rest of the string
  after the last occurrence is the last segment. With the empty separator the string is
  cut into its characters.
\<close>

function split_nonempty :: "string \<Rightarrow> string \<Rightarrow> string list" where
  "split_nonempty sep [] = [[]]"
| "split_nonempty sep (c # cs) =
     (if sep \<noteq> [] \<and> take (length sep) (c # cs) = sep
      then [] # split_nonempty sep (drop (length sep) (c # cs))
      else (case split_nonempty sep cs of [] \<Rightarrow> [[c]] | w # ws \<Rightarrow> (c # w) # ws))"
  by pat_completeness auto
termination
  by (relation "measure (\<lambda>(sep, s). length s)") auto

definition js_split :: "string \<Rightarrow> string \<Rightarrow> string list" where
  "js_split s sep = (if sep = [] then map (\<lambda>c. [c]) s else split_nonempty sep s)"

text \<open>Indexing an array of strings: out of range gives \<open>undefined\<close>.\<close>

definition index :: "string list \<Rightarrow> nat \<Rightarrow> jsval" where
  "index xs i = (if i < length xs then JStr (xs ! i) else JUndefined)"

text \<open>\<open>s.includes(t)\<close> and \<open>s.endsWith(t)\<close>, used to state conditions on fields.\<close>

fun js_includes :: "string \<Rightarrow> string \<Rightarrow> bool" where
  "js_includes [] t = (t = [])"
| "js_includes (c # cs) t = (take (length t) (c # cs) = t \<or> js_includes cs t)"

definition ends_with :: "string \<Rightarrow> string \<Rightarrow> bool" where
  "ends_with s t = (length t \<le> length s \<and> drop (length s - length t) s = t)"

section \<open>The Signal class\<close>

datatype error =
    MissingRequiredParam string
  | MissingSender
  | SenderMismatch
  | MissingCollaborator
  | MissingAnchor
  | NotLocated
  | ReferenceError string
  | TypeError string
  | CollaboratorError string

text \<open>
  A payload is the pair of mappings \<open>_signed_\<close> and \<open>_params_\<close>; a signal extends it with
  the four claim fields. \<open>authorAlias\<close> and \<open>uuid\<close> are state of the wrapped message
  class: the alias recovered by verification and the identity its comparator uses.
\<close>

record payload =
  signed :: obj
  params :: obj

record signal = payload +
  sender :: jsval
  action :: jsval
  epoch :: jsval
  block :: jsval
  authorAlias :: jsval
  uuid :: string

text \<open>
  Modelled from the spec: the constructor of the parent class (\<open>Torrent\<close>, from the package
  \<open>@satellite-earth/dev-torrent\<close>) is not in this repository. Per the spec's external
  interfaces it provides the pair of mappings for signed and unsigned fields, taken from
  the payload; the claim fields and the author alias are not yet defined. The creation
  identifier is an input of the model.
\<close>

definition Torrent_new :: "string \<Rightarrow> payload \<Rightarrow> signal" where
  "Torrent_new uid p =
     \<lparr> signed = signed p, params = params p,
       sender = JUndefined, action = JUndefined, epoch = JUndefined, block = JUndefined,
       authorAlias = JUndefined, uuid = uid \<rparr>"

text \<open>The getter \<open>consensus\<close>.\<close>

definition consensus :: "signal \<Rightarrow> jsval" where
  "consensus this = get_prop (signed this) ''@''"

text \<open>
  The first loop of the constructor: it tests \<open>typeof param\<close>, where \<open>param\<close> is the
  name taken from the array literal.
\<close>

fun check_required :: "string list \<Rightarrow> error + unit" where
  "check_required [] = Inr ()"
| "check_required (param # rest) =
     (if js_typeof (JStr param) = ''undefined'' then Inl (MissingRequiredParam param)
      else check_required rest)"

text \<open>The second loop: copy the optional coordinates that are defined.\<close>

definition copy_coord :: "obj \<Rightarrow> string \<Rightarrow> signal \<Rightarrow> signal" where
  "copy_coord signalParams coord this =
     (if js_typeof (get_prop signalParams coord) \<noteq> ''undefined''
      then this\<lparr>params := set_prop coord (get_prop signalParams coord) (params this)\<rparr>
      else this)"

text \<open>The template literal that builds the consensus string.\<close>

definition compose :: "jsval \<Rightarrow> jsval \<Rightarrow> jsval \<Rightarrow> jsval \<Rightarrow> string" where
  "compose s a e b =
     to_string s @ '' > '' @ to_string a @ '' > '' @ to_string e @ '' > '' @ to_string b"

text \<open>
  The constructor. \<open>signalParams\<close> is \<open>None\<close> when the argument is missing. A truthy
  consensus value that is not a string has no \<open>split\<close> method.
\<close>

definition Signal_new :: "string \<Rightarrow> payload \<Rightarrow> obj option \<Rightarrow> error + signal" where
  "Signal_new uid p signalParams =
     (let this = Torrent_new uid p in
      case signalParams of
        Some sp \<Rightarrow>
          (case check_required [''sender'', ''action'', ''epoch'', ''block''] of
             Inl e \<Rightarrow> Inl e
           | Inr _ \<Rightarrow>
               let this = this\<lparr>sender := get_prop sp ''sender''\<rparr>;
                   this = this\<lparr>action := get_prop sp ''action''\<rparr>;
                   this = this\<lparr>epoch := get_prop sp ''epoch''\<rparr>;
                   this = this\<lparr>block := get_prop sp ''block''\<rparr>;
                   this = fold (copy_coord sp) [''blockNumber'', ''timestamp'', ''world''] this
               in Inr (this\<lparr>signed :=
                         set_prop ''@''
                           (JStr (compose (sender this) (action this) (epoch this) (block this)))
                           (signed this)\<rparr>))
      | None \<Rightarrow>
          if truthy (consensus this) then
            (case consensus this of
               JStr c \<Rightarrow>
                 let sp = js_split c '' > '' in
                 Inr (this\<lparr>sender := index sp 0, action := index sp 1,
                           epoch := index sp 2, block := index sp 3\<rparr>)
             | _ \<Rightarrow> Inl (TypeError ''this.consensus.split is not a function''))
          else Inr this)"

subsection \<open>Getters\<close>

text \<open>
  \<open>parseInt(v)\<close> with no radix: the argument is converted to a string, leading white
  space is skipped, a sign is read, a prefix \<open>0x\<close> or \<open>0X\<close> selects radix 16 (otherwise
  10), and the longest run of digits of that radix is the value, rounded to a double; no
  digit gives \<open>NaN\<close>. (For a decimal numeral of more than 20 significant digits
  ECMAScript lets an implementation round from the first 20; the exact value is rounded
  here.) Characters are code units below 256.
\<close>

definition is_white_space :: "char \<Rightarrow> bool" where
  "is_white_space c =
     (c \<in> set [CHR 0x09, CHR 0x0A, CHR 0x0B, CHR 0x0C, CHR 0x0D, CHR 0x20, CHR 0xA0])"

definition digit_value :: "char \<Rightarrow> nat" where
  "digit_value c =
     (let n = (of_char c :: nat) in
      if 48 \<le> n \<and> n \<le> 57 then n - 48
      else if 97 \<le> n \<and> n \<le> 122 then n - 87
      else if 65 \<le> n \<and> n \<le> 90 then n - 55
      else 36)"

definition is_digit :: "nat \<Rightarrow> char \<Rightarrow> bool" where
  "is_digit R c = (digit_value c < R)"

definition digits_value :: "nat \<Rightarrow> string \<Rightarrow> nat" where
  "digits_value R Z = foldl (\<lambda>acc c. acc * R + digit_value c) 0 Z"

definition parseInt_string :: "string \<Rightarrow> jsnum" where
  "parseInt_string inputString =
     (let S = dropWhile is_white_space inputString;
          sign = (if take 1 S = ''-'' then - 1 else 1 :: int);
          S = (if take 1 S = ''+'' \<or> take 1 S = ''-'' then drop 1 S else S);
          hex = (take 2 S = ''0x'' \<or> take 2 S = ''0X'');
          R = (if hex then 16 else 10);
          S = (if hex then drop 2 S else S);
          Z = takeWhile (is_digit R) S
      in if Z = [] then NaN else to_double (sign * int (digits_value R Z)))"

definition parseInt :: "jsval \<Rightarrow> jsnum" where
  "parseInt v = parseInt_string (to_string v)"

text \<open>
  The numeric getters return \<open>undefined\<close> (here \<open>None\<close>) when the parameter is
  undefined, and the parsed number otherwise.
\<close>

definition world :: "signal \<Rightarrow> jsval" where
  "world this = get_prop (params this) ''world''"

definition blockNumber :: "signal \<Rightarrow> jsnum option" where
  "blockNumber this =
     (if js_typeof (get_prop (params this) ''blockNumber'') = ''undefined'' then None
      else Some (parseInt (get_prop (params this) ''blockNumber'')))"

definition timestamp :: "signal \<Rightarrow> jsnum option" where
  "timestamp this =
     (if js_typeof (get_prop (params this) ''timestamp'') = ''undefined'' then None
      else Some (parseInt (get_prop (params this) ''timestamp'')))"

definition dropped :: "signal \<Rightarrow> jsnum option" where
  "dropped this =
     (if js_typeof (get_prop (params this) ''dropped'') = ''undefined'' then None
      else Some (parseInt (get_prop (params this) ''dropped'')))"

definition located :: "signal \<Rightarrow> bool" where
  "located this = (timestamp this \<noteq> None \<or> blockNumber this \<noteq> None)"

definition standardParams :: "signal \<Rightarrow> obj" where
  "standardParams this =
     [(''sig'', get_prop (params this) ''sig''),
      (''alias'', get_prop (params this) ''alias''),
      (''world'', get_prop (params this) ''world''),
      (''timestamp'', get_prop (params this) ''timestamp''),
      (''blockNumber'', get_prop (params this) ''blockNumber'')]"

text \<open>The getter \<open>payload\<close>: the signed fields and the five standard parameters.\<close>

definition payload_of :: "signal \<Rightarrow> payload" where
  "payload_of this = \<lparr> signed = signed this, params = standardParams this \<rparr>"

text \<open>\<open>Array.prototype.indexOf\<close> on an array of strings.\<close>

fun index_of :: "string list \<Rightarrow> string \<Rightarrow> int" where
  "index_of [] x = - 1"
| "index_of (y # ys) x =
     (if y = x then 0 else (let i = index_of ys x in if i = - 1 then - 1 else i + 1))"

definition customParams :: "signal \<Rightarrow> obj" where
  "customParams this =
     (let standardKeys = object_keys (standardParams this) in
      fold (\<lambda>key customParams.
              if index_of standardKeys key = - 1
              then assign_prop key (get_prop (params this) key) customParams
              else customParams)
           (object_keys (params this)) [])"

subsection \<open>Clearing parameters\<close>


text \<open>
  Reading an identifier: a name with no binding in scope raises a \<open>ReferenceError\<close>.
\<close>

definition lookup_identifier :: "(string \<times> 'a) list \<Rightarrow> string \<Rightarrow> error + 'a" where
  "lookup_identifier scope x =
     (case map_of scope x of None \<Rightarrow> Inl (ReferenceError x) | Some v \<Rightarrow> Inr v)"

text \<open>
  The loop of \<open>clearCustomParams\<close>. The array bound in the method is \<open>standardKeys\<close>;
  the loop body reads the identifier \<open>standardParams\<close>, which neither the method nor the
  module binds. The first iteration therefore raises, before \<open>_params_\<close> is assigned.
\<close>

fun clearCustomParams_loop :: "(string \<times> string list) list \<Rightarrow> obj \<Rightarrow> string list \<Rightarrow> obj \<Rightarrow> error + obj" where
  "clearCustomParams_loop scope ps [] keep = Inr keep"
| "clearCustomParams_loop scope ps (key # rest) keep =
     (case lookup_identifier scope ''standardParams'' of
        Inl e \<Rightarrow> Inl e
      | Inr arr \<Rightarrow>
          clearCustomParams_loop scope ps rest
            (if index_of arr key \<noteq> - 1 then assign_prop key (get_prop ps key) keep else keep))"

definition clearCustomParams :: "signal \<Rightarrow> error + signal" where
  "clearCustomParams this =
     (let standardKeys = object_keys (standardParams this) in
      case clearCustomParams_loop [(''standardKeys'', standardKeys)] (params this)
             (object_keys (params this)) [] of
        Inl e \<Rightarrow> Inl e
      | Inr keep \<Rightarrow> Inr (this\<lparr>params := keep\<rparr>))"


subsection \<open>Location\<close>

text \<open>
  The collaborator \<open>earth\<close>: \<open>earth.web3.eth.getBlock(hash)\<close> and
  \<open>earth.clock.readHash(hash, confirm)\<close> answer with block information, with nothing
  (\<open>None\<close>), or fail. An absent collaborator is \<open>None\<close>.
\<close>

record earth =
  getBlock :: "jsval \<Rightarrow> error + obj option"
  readHash :: "jsval \<Rightarrow> jsval \<Rightarrow> error + obj option"




subsection \<open>Ordering\<close>

text \<open>
  \<open>i0 === i1\<close> and \<open>i0 - i1\<close> on what the numeric getters return: \<open>undefined\<close>
  converts to \<open>NaN\<close> under subtraction, \<open>NaN\<close> absorbs, the difference of two integers
  is rounded to a double, and an infinity minus itself is \<open>NaN\<close>.
\<close>

definition num_strict_eq :: "jsnum option \<Rightarrow> jsnum option \<Rightarrow> bool" where
  "num_strict_eq i0 i1 = (i0 = i1 \<and> i0 \<noteq> Some NaN)"

fun js_minus :: "jsnum option \<Rightarrow> jsnum option \<Rightarrow> jsnum" where
  "js_minus (Some (Fin a)) (Some (Fin b)) = to_double (a - b)"
| "js_minus (Some (Infty s)) (Some (Fin b)) = Infty s"
| "js_minus (Some (Fin a)) (Some (Infty t)) = Infty (\<not> t)"
| "js_minus (Some (Infty s)) (Some (Infty t)) = (if s = t then NaN else Infty s)"
| "js_minus i0 i1 = NaN"

text \<open>
  \<open>compare\<close>. The comparator of the wrapped message class (\<open>super.compare\<close>) is not in
  this repository and is a parameter.
\<close>

definition compare ::
  "(signal \<Rightarrow> signal \<Rightarrow> error + jsval) \<Rightarrow> signal \<Rightarrow> signal \<Rightarrow> error + jsval" where
  "compare super_compare this that =
     (if \<not> (located this \<and> located that) then Inl NotLocated
      else
        let i0 = blockNumber this;
            i1 = blockNumber that;
            (i0, i1) = (if i0 = None \<or> i1 = None then (timestamp this, timestamp that)
                        else (i0, i1))
        in if num_strict_eq i0 i1 then super_compare this that
           else Inr (JNum (js_minus i0 i1)))"

subsection \<open>Signing and verification\<close>

record domain_field =
  name :: string
  type :: string
  "value" :: jsval

text \<open>
  \<open>super.sign\<close>, \<open>super.verify\<close> and \<open>super.verifySync\<close> belong to the wrapped message
  class and are parameters: each receives the collaborator, the extra domain fields and
  the signal, and fails or returns (for verification) the signal as it left it.
\<close>

definition sign ::
  "(earth option \<Rightarrow> domain_field list \<Rightarrow> signal \<Rightarrow> error + 'r) \<Rightarrow> earth option \<Rightarrow> signal \<Rightarrow> error + 'r" where
  "sign super_sign earth this =
     super_sign earth [\<lparr> name = ''name'', type = ''string'', value = world this \<rparr>] this"

definition verify ::
  "(earth option \<Rightarrow> domain_field list \<Rightarrow> signal \<Rightarrow> error + signal) \<Rightarrow> earth option \<Rightarrow> signal \<Rightarrow> error + signal" where
  "verify super_verify earth this =
     (if js_typeof (sender this) = ''undefined'' then Inl MissingSender
      else
        (case super_verify earth [\<lparr> name = ''name'', type = ''string'', value = world this \<rparr>] this of
           Inl e \<Rightarrow> Inl e
         | Inr this' \<Rightarrow>
             if \<not> strict_eq (sender this') (authorAlias this') then Inl SenderMismatch
             else Inr this'))"

definition verifySync ::
  "(earth option \<Rightarrow> jsval \<Rightarrow> domain_field list \<Rightarrow> signal \<Rightarrow> error + signal) \<Rightarrow> earth option \<Rightarrow> jsval \<Rightarrow> signal \<Rightarrow> error + signal" where
  "verifySync super_verifySync earth blockNum this =
     (if js_typeof (sender this) = ''undefined'' then Inl MissingSender
      else
        (case super_verifySync earth blockNum
                [\<lparr> name = ''name'', type = ''string'', value = world this \<rparr>] this of
           Inl e \<Rightarrow> Inl e
         | Inr this' \<Rightarrow>
             if \<not> strict_eq (sender this') (authorAlias this') then Inl SenderMismatch
             else Inr this'))"

subsection \<open>Reading a signal back\<close>

text \<open>The four claim fields of a signal.\<close>

definition claim_fields :: "signal \<Rightarrow> jsval \<times> jsval \<times> jsval \<times> jsval" where
  "claim_fields this = (sender this, action this, epoch this, block this)"

text \<open>
  Composing and parsing back: a signal is constructed from claim parameters, its payload
  is read with the getter \<open>payload\<close>, and a second signal is constructed from that payload
  with no claim parameters.
\<close>

definition reparse :: "string \<Rightarrow> payload \<Rightarrow> obj \<Rightarrow> string \<Rightarrow> error + signal" where
  "reparse uid p signalParams uid' =
     (case Signal_new uid p (Some signalParams) of
        Inl e \<Rightarrow> Inl e
      | Inr this \<Rightarrow> Signal_new uid' (payload_of this) None)"

section \<open>Notions used to state the properties\<close>




text \<open>
  The relation \<open>i0 < i1\<close> on what the numeric getters return (false when either side is
  \<open>undefined\<close> or \<open>NaN\<close>), and the sign of a comparator's result: \<open>- 1\<close>, \<open>0\<close> or
  \<open>1\<close> for a number, nothing for \<open>NaN\<close>, a value that is not a number, or a failure.
\<close>

fun num_less :: "jsnum option \<Rightarrow> jsnum option \<Rightarrow> bool" where
  "num_less (Some (Fin a)) (Some (Fin b)) = (a < b)"
| "num_less (Some (Fin a)) (Some (Infty t)) = t"
| "num_less (Some (Infty s)) (Some (Fin b)) = (\<not> s)"
| "num_less (Some (Infty s)) (Some (Infty t)) = (\<not> s \<and> t)"
| "num_less i0 i1 = False"

fun cmp_sign :: "error + jsval \<Rightarrow> int option" where
  "cmp_sign (Inr (JNum (Fin n))) = Some (sgn n)"
| "cmp_sign (Inr (JNum (Infty b))) = Some (if b then 1 else - 1)"
| "cmp_sign r = None"

text \<open>
  A comparator is a strict total order on a set of signals when, for distinct signals of
  the set, its result is a number other than zero (no ties) and changes sign when the
  arguments are exchanged (antisymmetry), and when it is transitive on the set.
\<close>

definition strict_total_comparator ::
  "signal set \<Rightarrow> (signal \<Rightarrow> signal \<Rightarrow> error + jsval) \<Rightarrow> bool" where
  "strict_total_comparator S c =
     ((\<forall>a\<in>S. \<forall>b\<in>S. a \<noteq> b \<longrightarrow> cmp_sign (c a b) = Some (- 1) \<or> cmp_sign (c a b) = Some 1) \<and>
      (\<forall>a\<in>S. \<forall>b\<in>S. a \<noteq> b \<longrightarrow> cmp_sign (c a b) = map_option uminus (cmp_sign (c b a))) \<and>
      (\<forall>a\<in>S. \<forall>b\<in>S. \<forall>d\<in>S.
         cmp_sign (c a b) = Some (- 1) \<and> cmp_sign (c b d) = Some (- 1) \<longrightarrow>
         cmp_sign (c a d) = Some (- 1)))"

text \<open>
  The tie-break as Scenario D of the spec words it: two signals with equal block numbers
  are compared by timestamp, and by identity only if the timestamps are equal as well.
\<close>

definition tiebreak_by_timestamp ::
  "(signal \<Rightarrow> signal \<Rightarrow> error + jsval) \<Rightarrow> signal \<Rightarrow> signal \<Rightarrow> error + jsval" where
  "tiebreak_by_timestamp super_compare this that =
     (if num_strict_eq (timestamp this) (timestamp that) then super_compare this that
      else Inr (JNum (js_minus (timestamp this) (timestamp that))))"

text \<open>
  Modelled from the spec: the comparator of the wrapped message class is not in this
  repository. The spec describes it as a stable identity-based tie-break such as a unique
  creation identifier; here it compares the identifiers of the two signals as strings,
  character by character. It instantiates the comparator parameter in examples.
\<close>

fun str_compare :: "string \<Rightarrow> string \<Rightarrow> int" where
  "str_compare [] [] = 0"
| "str_compare [] (y # ys) = - 1"
| "str_compare (x # xs) [] = 1"
| "str_compare (x # xs) (y # ys) =
     (if x = y then str_compare xs ys
      else if (of_char x :: nat) < of_char y then - 1 else 1)"

definition uuid_compare :: "signal \<Rightarrow> signal \<Rightarrow> error + jsval" where
  "uuid_compare this that = Inr (JNum (Fin (str_compare (uuid this) (uuid that))))"

text \<open>A string of decimal digits, as printing a natural number produces.\<close>

definition decimal :: "string \<Rightarrow> bool" where
  "decimal S = (S \<noteq> [] \<and> set S \<subseteq> digit_char ` {..<10})"

section \<open>Properties of the constructor\<close>

lemma get_prop_set_prop: "get_prop (set_prop k v ob) k' = (if k' = k then v else get_prop ob k')"
  by (simp add: get_prop_def set_prop_def update_conv')

lemma copy_coord_fields:
  "signed (copy_coord sp c t) = signed t" "sender (copy_coord sp c t) = sender t"
  "action (copy_coord sp c t) = action t" "epoch (copy_coord sp c t) = epoch t"
  "block (copy_coord sp c t) = block t"
  by (simp_all add: copy_coord_def)

lemma fold_copy_coord_fields:
  "signed (fold (copy_coord sp) cs t) = signed t" "sender (fold (copy_coord sp) cs t) = sender t"
  "action (fold (copy_coord sp) cs t) = action t" "epoch (fold (copy_coord sp) cs t) = epoch t"
  "block (fold (copy_coord sp) cs t) = block t"
  by (induction cs arbitrary: t) (simp_all add: copy_coord_fields)

text \<open>The first loop never raises: \<open>typeof\<close> of a name is \<open>string\<close>.\<close>

lemma check_required_ok: "check_required ps = Inr ()"
  by (induction ps) simp_all

lemma Signal_new_params:
  "\<exists>this. Signal_new uid p (Some sp) = Inr this \<and>
     claim_fields this =
       (get_prop sp ''sender'', get_prop sp ''action'', get_prop sp ''epoch'', get_prop sp ''block'') \<and>
     consensus this =
       JStr (compose (get_prop sp ''sender'') (get_prop sp ''action'')
               (get_prop sp ''epoch'') (get_prop sp ''block''))"
  by (simp add: Signal_new_def check_required_ok Let_def claim_fields_def consensus_def
      fold_copy_coord_fields copy_coord_fields get_prop_set_prop del: check_required.simps)

lemma Signal_new_parse:
  assumes "get_prop (signed p) ''@'' = JStr c" "c \<noteq> []"
  shows "Signal_new uid p None =
     Inr ((Torrent_new uid p)
            \<lparr>sender := index (js_split c '' > '') 0, action := index (js_split c '' > '') 1,
             epoch := index (js_split c '' > '') 2, block := index (js_split c '' > '') 3\<rparr>)"
  using assms by (simp add: Signal_new_def Let_def consensus_def Torrent_new_def)

text \<open>
  Claim C2. With explicit claim parameters, construction should fail with a
  missing-required-param error when one of sender, action, epoch, block is absent. The
  code tests the name instead of the value: with no \<open>sender\<close> the constructor returns a
  signal whose sender is undefined and whose consensus string begins with the text
  \<open>undefined\<close>.
\<close>

theorem Signal_new_missing_sender_accepted:
  "map_sum id (\<lambda>this. (claim_fields this, consensus this))
     (Signal_new ''u'' \<lparr>signed = [], params = []\<rparr>
        (Some [(''action'', JStr ''vote''), (''epoch'', JStr ''3''), (''block'', JStr ''0xaa'')]))
   = Inr ((JUndefined, JStr ''vote'', JStr ''3'', JStr ''0xaa''),
          JStr ''undefined > vote > 3 > 0xaa'')"
  by code_simp

subsection \<open>Splitting a composed consensus string\<close>

lemma split_last: "\<not> js_includes b sep \<Longrightarrow> sep \<noteq> [] \<Longrightarrow> split_nonempty sep b = [b]"
  by (induction b) auto

lemma ends_with_Cons: "ends_with s t \<Longrightarrow> ends_with (c # s) t"
  by (simp add: ends_with_def Suc_diff_le)

lemma no_early_match:
  assumes "\<not> js_includes (c # s) '' > ''" "\<not> ends_with (c # s) '' >''"
  shows "take (length '' > '') ((c # s) @ '' > '' @ rest) \<noteq> '' > ''"
  using assms by (cases s; cases "tl s"; cases "tl (tl s)") (auto simp: ends_with_def)

lemma split_seg:
  assumes "\<not> js_includes s '' > ''" "\<not> ends_with s '' >''"
  shows "split_nonempty '' > '' (s @ '' > '' @ rest) = s # split_nonempty '' > '' rest"
  using assms
proof (induction s)
  case Nil
  then show ?case by simp
next
  case (Cons c s)
  define sep where "sep = '' > ''"
  have a: "\<not> js_includes s '' > ''" using Cons.prems by simp
  have b: "\<not> ends_with s '' >''" using Cons.prems ends_with_Cons by blast
  have IH: "split_nonempty sep (s @ sep @ rest) = s # split_nonempty sep rest"
    by (simp only: sep_def Cons.IH[OF a b])
  have c: "take (length sep) (c # s @ sep @ rest) \<noteq> sep"
    using no_early_match[OF Cons.prems, of rest] by (simp only: sep_def append_Cons simp_thms)
  have "split_nonempty sep (c # s @ sep @ rest) =
        (case split_nonempty sep (s @ sep @ rest) of [] \<Rightarrow> [[c]] | w # ws \<Rightarrow> (c # w) # ws)"
    using c by (simp only: split_nonempty.simps if_False simp_thms)
  also have "\<dots> = (c # s) # split_nonempty sep rest" by (simp only: IH list.case)
  finally show ?case by (simp only: sep_def append_Cons)
qed

lemma split_compose:
  assumes "\<not> js_includes s '' > ''" "\<not> ends_with s '' >''"
   "\<not> js_includes a '' > ''" "\<not> ends_with a '' >''"
   "\<not> js_includes e '' > ''" "\<not> ends_with e '' >''"
   "\<not> js_includes b '' > ''"
  shows "js_split (compose (JStr s) (JStr a) (JStr e) (JStr b)) '' > '' = [s, a, e, b]"
proof -
  have "js_split (compose (JStr s) (JStr a) (JStr e) (JStr b)) '' > ''
        = split_nonempty '' > '' (s @ '' > '' @ a @ '' > '' @ e @ '' > '' @ b)"
    by (simp add: js_split_def compose_def del: split_nonempty.simps)
  also have "\<dots> = s # split_nonempty '' > '' (a @ '' > '' @ e @ '' > '' @ b)"
    using assms(1,2) by (rule split_seg)
  also have "\<dots> = s # a # split_nonempty '' > '' (e @ '' > '' @ b)"
    using split_seg[OF assms(3,4)] by (simp only:)
  also have "\<dots> = s # a # e # split_nonempty '' > '' b"
    using split_seg[OF assms(5,6), of b] by (simp only: append_Nil2)
  also have "\<dots> = [s, a, e, b]"
    using split_last[OF assms(7)] by simp
  finally show ?thesis .
qed

lemma compose_nonempty: "compose s a e b \<noteq> []"
  by (simp add: compose_def)

lemma split_nonempty_not_Nil: "split_nonempty sep s \<noteq> []"
  by (induction sep s rule: split_nonempty.induct) (auto split: list.splits)

lemma js_split_not_Nil: "sep \<noteq> [] \<Longrightarrow> js_split s sep \<noteq> []"
  by (simp add: js_split_def split_nonempty_not_Nil del: split_nonempty.simps)

text \<open>The conditions are necessary: the first segment of a split is cut short otherwise.\<close>

lemma ends_with_Cons_cases:
  "ends_with (c # s) '' >'' \<Longrightarrow> ends_with s '' >'' \<or> c # s = '' >''"
  by (cases s; cases "tl s"; cases "tl (tl s)") (auto simp: ends_with_def Suc_diff_le)

lemma hd_split_Cons:
  assumes "take (length '' > '') (c # x) \<noteq> '' > ''"
  shows "hd (split_nonempty '' > '' (c # x)) = c # hd (split_nonempty '' > '' x)"
proof -
  define sep where "sep = '' > ''"
  obtain w ws where w: "split_nonempty sep x = w # ws"
    using split_nonempty_not_Nil[of sep x] by (cases "split_nonempty sep x") auto
  have "take (length sep) (c # x) \<noteq> sep" using assms by (simp only: sep_def simp_thms)
  then have "split_nonempty sep (c # x) = (c # w) # ws"
    by (simp only: split_nonempty.simps simp_thms if_False w list.case)
  then show ?thesis using w by (simp add: sep_def)
qed

lemma hd_split_early:
  assumes "js_includes s '' > '' \<or> ends_with s '' >''"
  shows "hd (split_nonempty '' > '' (s @ '' > '' @ rest)) \<noteq> s"
  using assms
proof (induction s)
  case Nil
  then show ?case by (simp add: ends_with_def)
next
  case (Cons c s)
  show ?case
  proof (cases "take (length '' > '') ((c # s) @ '' > '' @ rest) = '' > ''")
    case True
    then have "split_nonempty '' > '' ((c # s) @ '' > '' @ rest)
               = [] # split_nonempty '' > '' (drop (length '' > '') ((c # s) @ '' > '' @ rest))"
      by simp
    then show ?thesis by simp
  next
    case False
    have nm: "take (length '' > '') (c # s) \<noteq> '' > ''"
      using False by (cases s; cases "tl s"; cases "tl (tl s)") auto
    have n2: "c # s \<noteq> '' >''" using False by auto
    have "js_includes s '' > '' \<or> ends_with s '' >''"
      using Cons.prems nm n2 ends_with_Cons_cases[of c s] by auto
    then have "hd (split_nonempty '' > '' (s @ '' > '' @ rest)) \<noteq> s" by (rule Cons.IH)
    moreover have "hd (split_nonempty '' > '' (c # (s @ '' > '' @ rest)))
                   = c # hd (split_nonempty '' > '' (s @ '' > '' @ rest))"
      using False by (intro hd_split_Cons) simp
    ultimately show ?thesis by simp
  qed
qed

lemma hd_split_includes:
  assumes "js_includes b '' > ''"
  shows "hd (split_nonempty '' > '' b) \<noteq> b"
  using assms
proof (induction b)
  case Nil
  then show ?case by simp
next
  case (Cons c b)
  show ?case
  proof (cases "take (length '' > '') (c # b) = '' > ''")
    case True
    then show ?thesis by simp
  next
    case False
    then have "js_includes b '' > ''" using Cons.prems by auto
    then have "hd (split_nonempty '' > '' b) \<noteq> b" by (rule Cons.IH)
    then show ?thesis using hd_split_Cons[OF False] by simp
  qed
qed

lemma index_0: "xs \<noteq> [] \<Longrightarrow> index xs 0 = JStr (hd xs)"
  by (cases xs) (simp_all add: index_def)

lemma index_Suc: "index (x # xs) (Suc i) = index xs i"
  by (simp add: index_def)

lemma split_compose_only_if:
  assumes seg: "js_split (compose (JStr s) (JStr a) (JStr e) (JStr b)) '' > '' = segs"
    and i0: "index segs 0 = JStr s" and i1: "index segs 1 = JStr a"
    and i2: "index segs 2 = JStr e" and i3: "index segs 3 = JStr b"
  shows "\<not> js_includes s '' > '' \<and> \<not> ends_with s '' >'' \<and>
         \<not> js_includes a '' > '' \<and> \<not> ends_with a '' >'' \<and>
         \<not> js_includes e '' > '' \<and> \<not> ends_with e '' >'' \<and>
         \<not> js_includes b '' > ''"
proof -
  define sep where "sep = '' > ''"
  have ne: "split_nonempty sep x \<noteq> []" for x by (rule split_nonempty_not_Nil)
  have segs: "segs = split_nonempty sep (s @ sep @ a @ sep @ e @ sep @ b)"
    using seg by (simp add: js_split_def compose_def sep_def del: split_nonempty.simps)
  have "hd (split_nonempty sep (s @ sep @ a @ sep @ e @ sep @ b)) = s"
    using i0 index_0[OF ne, of "s @ sep @ a @ sep @ e @ sep @ b"] by (simp only: segs jsval.inject)
  then have cs: "\<not> js_includes s sep \<and> \<not> ends_with s '' >''"
    using hd_split_early[of s "a @ sep @ e @ sep @ b"] unfolding sep_def by blast
  then have s1: "segs = s # split_nonempty sep (a @ sep @ e @ sep @ b)"
    using split_seg[of s "a @ sep @ e @ sep @ b"] unfolding segs sep_def by blast
  have "hd (split_nonempty sep (a @ sep @ e @ sep @ b)) = a"
    using i1 index_0[OF ne, of "a @ sep @ e @ sep @ b"] by (simp add: s1 index_Suc)
  then have ca: "\<not> js_includes a sep \<and> \<not> ends_with a '' >''"
    using hd_split_early[of a "e @ sep @ b"] unfolding sep_def by blast
  then have s2: "segs = s # a # split_nonempty sep (e @ sep @ b)"
    using split_seg[of a "e @ sep @ b"] unfolding s1 sep_def by blast
  have "hd (split_nonempty sep (e @ sep @ b)) = e"
    using i2 index_0[OF ne, of "e @ sep @ b"]
    by (simp add: s2 index_Suc numeral_2_eq_2)
  then have ce: "\<not> js_includes e sep \<and> \<not> ends_with e '' >''"
    using hd_split_early[of e b] unfolding sep_def by (simp only: append_Nil2) blast
  then have s3: "segs = s # a # e # split_nonempty sep b"
    using split_seg[of e b] unfolding s2 sep_def by simp
  have "hd (split_nonempty sep b) = b"
    using i3 index_0[OF ne, of b]
    by (simp add: s3 index_Suc numeral_3_eq_3)
  then have cb: "\<not> js_includes b sep"
    using hd_split_includes[of b] unfolding sep_def by blast
  show ?thesis using cs ca ce cb unfolding sep_def by blast
qed

lemma reparse_fields:
  assumes "get_prop sp ''sender'' = JStr s" and "get_prop sp ''action'' = JStr a"
    and "get_prop sp ''epoch'' = JStr e" and "get_prop sp ''block'' = JStr b"
    and "js_split (compose (JStr s) (JStr a) (JStr e) (JStr b)) '' > '' = segs"
  shows "map_sum id claim_fields (reparse uid p sp uid')
         = Inr (index segs 0, index segs 1, index segs 2, index segs 3)"
proof -
  obtain this where new: "Signal_new uid p (Some sp) = Inr this"
    and cons: "consensus this = JStr (compose (JStr s) (JStr a) (JStr e) (JStr b))"
    using Signal_new_params[of uid p sp] assms(1-4) by auto
  have at: "get_prop (signed (payload_of this)) ''@'' =
            JStr (compose (JStr s) (JStr a) (JStr e) (JStr b))"
    using cons by (simp add: payload_of_def consensus_def)
  have "claim_fields ((Torrent_new uid' (payload_of this))
          \<lparr>sender := index segs 0, action := index segs 1,
           epoch := index segs 2, block := index segs 3\<rparr>)
        = (index segs 0, index segs 1, index segs 2, index segs 3)"
    by (simp add: claim_fields_def)
  then show ?thesis
    using Signal_new_parse[OF at compose_nonempty, of uid'] new
    by (simp only: reparse_def sum.case assms(5) map_sum.simps id_apply)
qed

text \<open>
  Claim C3, as stated: fields that do not contain the separator survive composing and
  parsing back. It fails for a sender that ends in a space and a greater-than sign:
  together with the first character of the separator that follows, the end of the
  sender reads as a separator, and the split cuts the sender short.
\<close>

theorem roundtrip_counterexample:
  "\<not> js_includes ''x >'' '' > '' \<and> \<not> js_includes ''vote'' '' > '' \<and>
   \<not> js_includes ''3'' '' > '' \<and> \<not> js_includes ''0xaa'' '' > '' \<and>
   map_sum id claim_fields
     (reparse ''u'' \<lparr>signed = [], params = []\<rparr>
        [(''sender'', JStr ''x >''), (''action'', JStr ''vote''), (''epoch'', JStr ''3''),
         (''block'', JStr ''0xaa'')]
        ''v'')
   = Inr (JStr ''x'', JStr ''> vote'', JStr ''3'', JStr ''0xaa'')"
  by code_simp

text \<open>
  Claim C3, amended: for string fields, composing the consensus string and constructing
  a signal from the resulting payload gives back the four fields if and only if none of
  them contains the separator and none of the first three (sender, action, epoch) ends in
  a space followed by a greater-than sign.
\<close>

theorem consensus_roundtrip:
  assumes "get_prop sp ''sender'' = JStr s" and "get_prop sp ''action'' = JStr a"
    and "get_prop sp ''epoch'' = JStr e" and "get_prop sp ''block'' = JStr b"
  shows "map_sum id claim_fields (reparse uid p sp uid') = Inr (JStr s, JStr a, JStr e, JStr b)
         \<longleftrightarrow>
         \<not> js_includes s '' > '' \<and> \<not> ends_with s '' >'' \<and>
         \<not> js_includes a '' > '' \<and> \<not> ends_with a '' >'' \<and>
         \<not> js_includes e '' > '' \<and> \<not> ends_with e '' >'' \<and>
         \<not> js_includes b '' > ''"
proof
  assume rt: "map_sum id claim_fields (reparse uid p sp uid') = Inr (JStr s, JStr a, JStr e, JStr b)"
  define segs where "segs = js_split (compose (JStr s) (JStr a) (JStr e) (JStr b)) '' > ''"
  have "index segs 0 = JStr s \<and> index segs 1 = JStr a \<and> index segs 2 = JStr e \<and> index segs 3 = JStr b"
    using rt reparse_fields[OF assms segs_def[symmetric], of uid p uid'] by simp
  then show "\<not> js_includes s '' > '' \<and> \<not> ends_with s '' >'' \<and>
         \<not> js_includes a '' > '' \<and> \<not> ends_with a '' >'' \<and>
         \<not> js_includes e '' > '' \<and> \<not> ends_with e '' >'' \<and>
         \<not> js_includes b '' > ''"
    using split_compose_only_if[OF segs_def[symmetric]] by blast
next
  assume c: "\<not> js_includes s '' > '' \<and> \<not> ends_with s '' >'' \<and>
         \<not> js_includes a '' > '' \<and> \<not> ends_with a '' >'' \<and>
         \<not> js_includes e '' > '' \<and> \<not> ends_with e '' >'' \<and>
         \<not> js_includes b '' > ''"
  then have "js_split (compose (JStr s) (JStr a) (JStr e) (JStr b)) '' > '' = [s, a, e, b]"
    by (intro split_compose) simp_all
  from reparse_fields[OF assms this, of uid p uid']
  show "map_sum id claim_fields (reparse uid p sp uid') = Inr (JStr s, JStr a, JStr e, JStr b)"
    by (simp add: index_def)
qed

theorem consensus_roundtrip_witness:
  "map_sum id claim_fields
     (reparse ''u'' \<lparr>signed = [], params = []\<rparr>
        [(''sender'', JStr ''alice''), (''action'', JStr ''vote''), (''epoch'', JStr ''3''),
         (''block'', JStr ''0xaa'')]
        ''v'')
   = Inr (JStr ''alice'', JStr ''vote'', JStr ''3'', JStr ''0xaa'')"
  using consensus_roundtrip[of "[(''sender'', JStr ''alice''), (''action'', JStr ''vote''), (''epoch'', JStr ''3''),
         (''block'', JStr ''0xaa'')]" "''alice''" "''vote''" "''3''" "''0xaa''" "''u''" "\<lparr>signed = [], params = []\<rparr>" "''v''"]
  by (simp add: get_prop_def ends_with_def)

subsection \<open>Parsing a received consensus string\<close>

text \<open>
  Claim C7, as stated: a consensus string that does not have exactly four segments is
  surfaced as invalid, by a failure or by undefined fields. It fails for a string of five
  segments: construction succeeds, all four fields are defined, and the fifth segment is
  dropped.
\<close>

theorem parse_counterexample:
  "length (js_split ''a > b > c > d > e'' '' > '') = 5 \<and>
   map_sum id claim_fields
     (Signal_new ''u'' \<lparr>signed = [(''@'', JStr ''a > b > c > d > e'')], params = []\<rparr> None)
   = Inr (JStr ''a'', JStr ''b'', JStr ''c'', JStr ''d'')"
  by code_simp

text \<open>
  Claim C7, amended: construction from a payload whose consensus value is a string does
  not fail. For the empty string nothing is parsed and the four fields stay undefined.
  For a non-empty string each of sender, action, epoch, block is the segment at its
  position when the string has one there and undefined otherwise: with fewer than four
  segments the sender is populated and the block is undefined, and with four or more
  segments all four fields are populated from the first four.
\<close>

theorem parse_by_position:
  assumes "get_prop (signed p) ''@'' = JStr c"
  shows "\<exists>this. Signal_new uid p None = Inr this \<and>
           (c = [] \<longrightarrow> claim_fields this = (JUndefined, JUndefined, JUndefined, JUndefined)) \<and>
           (c \<noteq> [] \<longrightarrow>
              (let segs = js_split c '' > '' in
                 segs \<noteq> [] \<and>
                 claim_fields this = (index segs 0, index segs 1, index segs 2, index segs 3) \<and>
                 (length segs < 4 \<longrightarrow> sender this = JStr (segs ! 0) \<and> block this = JUndefined) \<and>
                 (4 \<le> length segs \<longrightarrow>
                    claim_fields this =
                      (JStr (segs ! 0), JStr (segs ! 1), JStr (segs ! 2), JStr (segs ! 3)))))"
proof (cases "c = []")
  case True
  then have "Signal_new uid p None = Inr (Torrent_new uid p)"
    using assms by (simp add: Signal_new_def consensus_def Torrent_new_def)
  then show ?thesis using True by (simp add: claim_fields_def Torrent_new_def)
next
  case False
  have ne: "js_split c '' > '' \<noteq> []" by (rule js_split_not_Nil) simp
  then have pos: "0 < length (js_split c '' > '')" by simp
  show ?thesis
    using Signal_new_parse[OF assms False, of uid] ne pos False
    by (simp add: claim_fields_def index_def Let_def)
qed

theorem parse_by_position_witness:
  "(\<exists>this. Signal_new ''u'' \<lparr>signed = [(''@'', JStr ''a > b'')], params = []\<rparr> None = Inr this \<and>
           claim_fields this = (JStr ''a'', JStr ''b'', JUndefined, JUndefined)) \<and>
   (\<exists>this. Signal_new ''u'' \<lparr>signed = [(''@'', JStr [])], params = []\<rparr> None = Inr this \<and>
           claim_fields this = (JUndefined, JUndefined, JUndefined, JUndefined))"
proof -
  have seg: "js_split ''a > b'' '' > '' = [''a'', ''b'']" by code_simp
  have at: "get_prop (signed \<lparr>signed = [(''@'', JStr ''a > b'')], params = []\<rparr>) ''@'' = JStr ''a > b''"
    by (simp add: get_prop_def)
  have at0: "get_prop (signed \<lparr>signed = [(''@'', JStr [])], params = []\<rparr>) ''@'' = JStr []"
    by (simp add: get_prop_def)
  have "\<exists>this. Signal_new ''u'' \<lparr>signed = [(''@'', JStr ''a > b'')], params = []\<rparr> None = Inr this \<and>
           claim_fields this = (JStr ''a'', JStr ''b'', JUndefined, JUndefined)"
    using parse_by_position[OF at, of "''u''"] by (auto simp add: seg index_def Let_def)
  moreover have "\<exists>this. Signal_new ''u'' \<lparr>signed = [(''@'', JStr [])], params = []\<rparr> None = Inr this \<and>
           claim_fields this = (JUndefined, JUndefined, JUndefined, JUndefined)"
    using parse_by_position[OF at0, of "''u''"] by auto
  ultimately show ?thesis by blast
qed

section \<open>Properties of the parameter store\<close>


lemma set_object_keys: "set (object_keys ps) = fst ` set ps"
  by (simp add: object_keys_def)








text \<open>
  Claim C1. \<open>clearCustomParams\<close> should keep the standard keys with their values and
  drop the custom ones. On a signal with the standard parameter \<open>world\<close> and the custom
  parameter \<open>foo\<close> the method raises a \<open>ReferenceError\<close> instead, and the parameters
  stay as they were: the loop reads the unbound name \<open>standardParams\<close> where the array
  \<open>standardKeys\<close> was meant.
\<close>

theorem clearCustomParams_raises:
  "clearCustomParams
     (Torrent_new ''u'' \<lparr>signed = [], params = [(''world'', JStr ''w''), (''foo'', JNum (Fin 1))]\<rparr>)
   = Inl (ReferenceError ''standardParams'')"
  by code_simp

text \<open>In general the method raises as soon as the signal has any parameter.\<close>

lemma clearCustomParams_general:
  "clearCustomParams this =
     (if params this = [] then Inr this else Inl (ReferenceError ''standardParams''))"
proof (cases "object_keys (params this)")
  case Nil
  then have "params this = []" using set_object_keys[of "params this"] by simp
  then show ?thesis by (simp add: clearCustomParams_def object_keys_def Let_def)
next
  case (Cons key rest)
  then have "params this \<noteq> []" by (auto simp: object_keys_def)
  then show ?thesis
    by (simp add: clearCustomParams_def Cons lookup_identifier_def Let_def)
qed

section \<open>Location\<close>

lemma typeof_undefined: "js_typeof v = ''undefined'' \<longleftrightarrow> v = JUndefined"
  by (cases v) simp_all











section \<open>Signing and verification\<close>

text \<open>
  Claim C9. \<open>verify\<close> and \<open>verifySync\<close> fail with a missing-sender error when the
  sender is undefined. Otherwise they delegate with the domain field that carries the
  world; when the delegated verification returns, they fail with a sender-mismatch error
  if the declared sender is not strictly equal to the recovered author alias, and return
  the signal if it is.
\<close>

theorem verify_contract:
  "(sender this = JUndefined \<longrightarrow>
      verify sv earth this = Inl MissingSender \<and>
      verifySync svs earth bn this = Inl MissingSender) \<and>
   (sender this \<noteq> JUndefined \<and>
    sv earth [\<lparr>name = ''name'', type = ''string'', value = world this\<rparr>] this = Inr this' \<longrightarrow>
      (\<not> strict_eq (sender this') (authorAlias this') \<longrightarrow> verify sv earth this = Inl SenderMismatch) \<and>
      (strict_eq (sender this') (authorAlias this') \<longrightarrow> verify sv earth this = Inr this')) \<and>
   (sender this \<noteq> JUndefined \<and>
    svs earth bn [\<lparr>name = ''name'', type = ''string'', value = world this\<rparr>] this = Inr this' \<longrightarrow>
      (\<not> strict_eq (sender this') (authorAlias this') \<longrightarrow>
         verifySync svs earth bn this = Inl SenderMismatch) \<and>
      (strict_eq (sender this') (authorAlias this') \<longrightarrow> verifySync svs earth bn this = Inr this'))"
  by (simp add: verify_def verifySync_def typeof_undefined)

theorem verify_contract_witness:
  "verify (\<lambda>e d s. Inr (s\<lparr>authorAlias := JStr ''dave''\<rparr>)) None
     ((Torrent_new ''u'' \<lparr>signed = [], params = []\<rparr>)\<lparr>sender := JStr ''carol''\<rparr>) = Inl SenderMismatch \<and>
   verifySync (\<lambda>e n d s. Inr (s\<lparr>authorAlias := JStr ''carol''\<rparr>)) None (JNum (Fin 7))
     ((Torrent_new ''u'' \<lparr>signed = [], params = []\<rparr>)\<lparr>sender := JStr ''carol''\<rparr>)
     = Inr ((Torrent_new ''u'' \<lparr>signed = [], params = []\<rparr>)\<lparr>sender := JStr ''carol'', authorAlias := JStr ''carol''\<rparr>) \<and>
   verify (\<lambda>e d s. Inr (s\<lparr>authorAlias := JStr ''dave''\<rparr>)) None
     (Torrent_new ''u'' \<lparr>signed = [], params = []\<rparr>) = Inl MissingSender"
proof -
  define t where "t = (Torrent_new ''u'' \<lparr>signed = [], params = []\<rparr>)\<lparr>sender := JStr ''carol''\<rparr>"
  define t0 where "t0 = Torrent_new ''u'' \<lparr>signed = [], params = []\<rparr>"
  define sv where "sv = (\<lambda>(e::earth option) (d::domain_field list) (s::signal). (Inr (s\<lparr>authorAlias := JStr ''dave''\<rparr>) :: error + signal))"
  define svs where "svs = (\<lambda>(e::earth option) (n::jsval) (d::domain_field list) (s::signal). (Inr (s\<lparr>authorAlias := JStr ''carol''\<rparr>) :: error + signal))"
  have s0: "sender t0 = JUndefined" by (simp add: t0_def Torrent_new_def)
  have s1: "sender t \<noteq> JUndefined" by (simp add: t_def)
  have "verify sv None t = Inl SenderMismatch"
    using verify_contract[of t sv None svs "JNum (Fin 7)" "t\<lparr>authorAlias := JStr ''dave''\<rparr>"] s1
    by (simp add: sv_def t_def strict_eq_def)
  moreover have "verifySync svs None (JNum (Fin 7)) t = Inr (t\<lparr>authorAlias := JStr ''carol''\<rparr>)"
    using verify_contract[of t sv None svs "JNum (Fin 7)" "t\<lparr>authorAlias := JStr ''carol''\<rparr>"] s1
    by (simp add: svs_def t_def strict_eq_def)
  moreover have "verify sv None t0 = Inl MissingSender"
    using verify_contract[of t0 sv None svs "JNum (Fin 7)"] s0 by simp
  ultimately show ?thesis
    unfolding t_def t0_def sv_def svs_def by simp
qed

text \<open>
  Claim C10. \<open>sign\<close>, \<open>verify\<close> and \<open>verifySync\<close> hand the wrapped message class one
  domain field, named \<open>name\<close>, of type \<open>string\<close>, whose value is the current \<open>world\<close>
  parameter, which is undefined when that parameter was never set. An undefined world is
  no cause of failure: \<open>sign\<close> fails only if the delegated call does, and the
  verifications fail only for a missing sender, a sender mismatch, or a failure of the
  delegated call.
\<close>

theorem world_domain_separator:
  "sign ss earth this = ss earth [\<lparr>name = ''name'', type = ''string'', value = world this\<rparr>] this \<and>
   verify sv earth this =
     (if sender this = JUndefined then Inl MissingSender
      else case sv earth [\<lparr>name = ''name'', type = ''string'', value = world this\<rparr>] this of
             Inl err \<Rightarrow> Inl err
           | Inr this' \<Rightarrow> if strict_eq (sender this') (authorAlias this') then Inr this'
                         else Inl SenderMismatch) \<and>
   verifySync svs earth bn this =
     (if sender this = JUndefined then Inl MissingSender
      else case svs earth bn [\<lparr>name = ''name'', type = ''string'', value = world this\<rparr>] this of
             Inl err \<Rightarrow> Inl err
           | Inr this' \<Rightarrow> if strict_eq (sender this') (authorAlias this') then Inr this'
                         else Inl SenderMismatch) \<and>
   world this = get_prop (params this) ''world'' \<and>
   (''world'' \<notin> set (object_keys (params this)) \<longrightarrow> world this = JUndefined) \<and>
   (verify sv earth this = Inl err \<longrightarrow>
      err = MissingSender \<or> err = SenderMismatch \<or>
      sv earth [\<lparr>name = ''name'', type = ''string'', value = world this\<rparr>] this = Inl err) \<and>
   (verifySync svs earth bn this = Inl err \<longrightarrow>
      err = MissingSender \<or> err = SenderMismatch \<or>
      svs earth bn [\<lparr>name = ''name'', type = ''string'', value = world this\<rparr>] this = Inl err)"
proof (intro conjI)
  show "sign ss earth this = ss earth [\<lparr>name = ''name'', type = ''string'', value = world this\<rparr>] this"
    by (simp add: sign_def)
  show "world this = get_prop (params this) ''world''" by (simp add: world_def)
  show "''world'' \<notin> set (object_keys (params this)) \<longrightarrow> world this = JUndefined"
    by (simp add: world_def get_prop_def object_keys_def map_of_eq_None_iff[THEN iffD2])
qed (auto simp: verify_def verifySync_def typeof_undefined split: sum.splits if_splits)

theorem world_domain_separator_witness:
  "sign (\<lambda>e d s. if d = [\<lparr>name = ''name'', type = ''string'', value = JUndefined\<rparr>]
                   then Inr ''signed'' else Inl (CollaboratorError ''domain''))
        None (Torrent_new ''u'' \<lparr>signed = [], params = [(''sig'', JStr ''0x01'')]\<rparr>)
   = Inr ''signed'' \<and>
   world (Torrent_new ''u'' \<lparr>signed = [], params = [(''sig'', JStr ''0x01'')]\<rparr>) = JUndefined \<and>
   verify (\<lambda>e d s. Inl (CollaboratorError ''bad signature'')) None
     ((Torrent_new ''u'' \<lparr>signed = [], params = [(''sig'', JStr ''0x01'')]\<rparr>)\<lparr>sender := JStr ''carol''\<rparr>)
   = Inl (CollaboratorError ''bad signature'')"
proof -
  define t where "t = Torrent_new ''u'' \<lparr>signed = [], params = [(''sig'', JStr ''0x01'')]\<rparr>"
  define ss where "ss = (\<lambda>(e::earth option) (d::domain_field list) (s::signal).
     if d = [\<lparr>name = ''name'', type = ''string'', value = JUndefined\<rparr>]
     then (Inr ''signed'' :: error + string) else Inl (CollaboratorError ''domain''))"
  have k: "''world'' \<notin> set (object_keys (params t))"
    by (simp add: t_def Torrent_new_def object_keys_def)
  have w: "world t = JUndefined"
    using world_domain_separator[of ss None t] k by blast
  have "sign ss None t = ss None [\<lparr>name = ''name'', type = ''string'', value = world t\<rparr>] t"
    using world_domain_separator[of ss None t] by blast
  then have "sign ss None t = Inr ''signed''"
    by (simp add: w ss_def)
  moreover have "verify (\<lambda>e d s. Inl (CollaboratorError ''bad signature'')) None (t\<lparr>sender := JStr ''carol''\<rparr>)
                 = Inl (CollaboratorError ''bad signature'')"
    using world_domain_separator[of ss None "t\<lparr>sender := JStr ''carol''\<rparr>"
            "\<lambda>e d s. Inl (CollaboratorError ''bad signature'')"]
    by simp
  ultimately show ?thesis using w unfolding t_def ss_def by simp
qed

section \<open>Numbers printed and parsed\<close>

lemma digit_value_digit_char: "d < 10 \<Longrightarrow> digit_value (digit_char d) = d"
  by (simp add: digit_value_def digit_char_def Let_def)

lemma digit_char_props:
  assumes "d < 10"
  shows "is_digit 10 (digit_char d)" "\<not> is_white_space (digit_char d)"
    "digit_char d \<noteq> CHR ''-''" "digit_char d \<noteq> CHR ''+''"
    "digit_char d \<noteq> CHR ''x''" "digit_char d \<noteq> CHR ''X''"
proof -
  have v: "of_char (digit_char d) = 48 + d" using assms by (simp add: digit_char_def)
  show "is_digit 10 (digit_char d)"
    using assms by (simp add: is_digit_def digit_value_digit_char)
  have ne: "digit_char d \<noteq> c" if "(of_char c :: nat) < 48 \<or> 57 < (of_char c :: nat)" for c
    using that v assms by auto
  show "\<not> is_white_space (digit_char d)"
    unfolding is_white_space_def using ne by (auto simp: ne)
  show "digit_char d \<noteq> CHR ''-''" "digit_char d \<noteq> CHR ''+''"
    "digit_char d \<noteq> CHR ''x''" "digit_char d \<noteq> CHR ''X''"
    by (rule ne, simp)+
qed

lemma decimal_show_nat: "decimal (show_nat n)"
proof (induction n rule: show_nat.induct)
  case (1 n)
  show ?case
  proof (cases "n < 10")
    case True
    then show ?thesis by (subst show_nat.simps) (auto simp: decimal_def)
  next
    case False
    have "n mod 10 < 10" by simp
    then show ?thesis
      using 1[OF False] False by (subst show_nat.simps) (auto simp: decimal_def)
  qed
qed

lemma digits_value_snoc: "digits_value R (Z @ [c]) = digits_value R Z * R + digit_value c"
  by (simp add: digits_value_def)

lemma digits_value_show_nat: "digits_value 10 (show_nat n) = n"
proof (induction n rule: show_nat.induct)
  case (1 n)
  show ?case
  proof (cases "n < 10")
    case True
    then show ?thesis
      by (subst show_nat.simps) (simp add: digits_value_def digit_value_digit_char)
  next
    case False
    have "digits_value 10 (show_nat (n div 10) @ [digit_char (n mod 10)])
          = digits_value 10 (show_nat (n div 10)) * 10 + digit_value (digit_char (n mod 10))"
      by (rule digits_value_snoc)
    also have "\<dots> = (n div 10) * 10 + n mod 10"
      using 1[OF False] by (simp add: digit_value_digit_char)
    also have "\<dots> = n" by simp
    finally show ?thesis using False by (subst show_nat.simps) simp
  qed
qed

lemma parse_decimal:
  assumes "decimal S"
  shows "parseInt_string S = to_double (int (digits_value 10 S))"
    and "parseInt_string (CHR ''-'' # S) = to_double (- int (digits_value 10 S))"
proof -
  obtain c cs where S: "S = c # cs" using assms by (cases S) (auto simp: decimal_def)
  obtain d where d: "d < 10" "c = digit_char d" using assms S by (auto simp: decimal_def)
  have ne: "S \<noteq> []" using S by simp
  have all: "\<forall>x\<in>set S. is_digit 10 x"
    using assms digit_char_props(1) by (auto simp: decimal_def)
  have tw: "takeWhile (is_digit 10) S = S" using all by (simp add: takeWhile_eq_all_conv)
  have ws: "\<not> is_white_space c" "c \<noteq> CHR ''-''" "c \<noteq> CHR ''+''"
    using d digit_char_props by auto
  have dw: "dropWhile is_white_space S = S" using ws by (simp add: S)
  have t1: "take 1 S \<noteq> ''-''" "take 1 S \<noteq> ''+''" using ws by (simp_all add: S)
  have nohex: "take 2 S \<noteq> ''0x''" "take 2 S \<noteq> ''0X''"
  proof -
    have "cs = [] \<or> (\<exists>d'<10. \<exists>cs'. cs = digit_char d' # cs')"
      using assms S by (cases cs) (auto simp: decimal_def)
    then show "take 2 S \<noteq> ''0x''" "take 2 S \<noteq> ''0X''"
      using digit_char_props(5,6) by (auto simp: S)
  qed
  show "parseInt_string S = to_double (int (digits_value 10 S))"
    by (simp only: parseInt_string_def Let_def dw t1 nohex tw ne simp_thms if_True if_False)
       simp
  have dm: "dropWhile is_white_space (CHR ''-'' # S) = CHR ''-'' # S"
    by (simp add: is_white_space_def)
  have tm: "take 1 (CHR ''-'' # S) = ''-''" "drop 1 (CHR ''-'' # S) = S" by simp_all
  show "parseInt_string (CHR ''-'' # S) = to_double (- int (digits_value 10 S))"
    by (simp only: parseInt_string_def Let_def dm tm nohex tw ne simp_thms if_True if_False)
       simp
qed

text \<open>
  \<open>parseInt\<close> of an integer below \<open>2 ^ 53\<close> in magnitude is that integer, so such an
  integer stored under \<open>blockNumber\<close> or \<open>timestamp\<close> is what the getter returns.
\<close>

lemma parseInt_integer:
  assumes "\<bar>n\<bar> < 2 ^ 53"
  shows "parseInt (JNum (Fin n)) = Fin n"
proof (cases "n < 0")
  case True
  have small: "- n < 2 ^ 53" using assms True by simp
  have "to_double (- int (nat (- n))) = Fin n"
    using assms True by (simp add: to_double_def)
  then show ?thesis
    using parse_decimal(2)[OF decimal_show_nat, of "nat (- n)"] True small
    by (simp add: parseInt_def digits_value_show_nat show_double_def)
next
  case False
  have small: "n < 2 ^ 53" using assms False by simp
  have "to_double (int (nat n)) = Fin n"
    using assms False by (simp add: to_double_def)
  then show ?thesis
    using parse_decimal(1)[OF decimal_show_nat, of "nat n"] False small
    by (simp add: parseInt_def digits_value_show_nat show_double_def)
qed

lemma blockNumber_integer:
  "get_prop (params this) ''blockNumber'' = JNum (Fin n) \<Longrightarrow> \<bar>n\<bar> < 2 ^ 53 \<Longrightarrow>
   blockNumber this = Some (Fin n)"
  by (simp add: blockNumber_def parseInt_integer)

lemma timestamp_integer:
  "get_prop (params this) ''timestamp'' = JNum (Fin n) \<Longrightarrow> \<bar>n\<bar> < 2 ^ 53 \<Longrightarrow>
   timestamp this = Some (Fin n)"
  by (simp add: timestamp_def parseInt_integer)

text \<open>Rounding to a double keeps the sign of an integer other than zero.\<close>

lemma bit_length_bound: "0 < m \<Longrightarrow> 2 ^ (bit_length m - 1) \<le> m"
proof (induction m rule: bit_length.induct)
  case (1 n)
  have bl: "bit_length n = Suc (bit_length (n div 2))"
    using "1.prems" by (subst bit_length.simps) simp
  show ?case
  proof (cases "n div 2 \<le> 0")
    case True
    then have "bit_length (n div 2) = 0" by (subst bit_length.simps) simp
    then show ?thesis using "1.prems" by (simp add: bl)
  next
    case False
    then have pos: "0 < n div 2" by simp
    have ih: "2 ^ (bit_length (n div 2) - 1) \<le> n div 2"
      using "1.IH" "1.prems" pos by simp
    have ge1: "0 < bit_length (n div 2)"
      using pos by (subst bit_length.simps) simp
    then have "(2::int) ^ bit_length (n div 2) = 2 * 2 ^ (bit_length (n div 2) - 1)"
      by (cases "bit_length (n div 2)") simp_all
    also have "\<dots> \<le> 2 * (n div 2)" using ih by simp
    also have "\<dots> \<le> n" by simp
    finally show ?thesis by (simp add: bl)
  qed
qed

lemma round_int_pos:
  assumes "0 < m"
  shows "0 < round_int m"
proof -
  define e where "e = bit_length m - 53"
  have "(2::int) ^ e \<le> 2 ^ (bit_length m - 1)"
    unfolding e_def by (rule power_increasing) simp_all
  then have "2 ^ e \<le> m" using bit_length_bound[OF assms] by (rule order_trans)
  then have q: "0 < m div 2 ^ e" by (simp add: pos_imp_zdiv_pos_iff)
  have p: "(0::int) < 2 ^ e" by simp
  have "0 < (if 2 ^ (e - 1) < m mod 2 ^ e \<or> (m mod 2 ^ e = 2 ^ (e - 1) \<and> odd (m div 2 ^ e))
             then m div 2 ^ e + 1 else m div 2 ^ e) * 2 ^ e"
    using q p by (intro mult_pos_pos) auto
  then show ?thesis
    unfolding round_int_def Let_def e_def[symmetric] .
qed

lemma sign_to_double:
  assumes "z \<noteq> 0"
  shows "cmp_sign (Inr (JNum (to_double z))) = Some (sgn z)"
proof (cases "\<bar>z\<bar> < 2 ^ 53")
  case True
  then show ?thesis by (simp add: to_double_def)
next
  case False
  define r where "r = round_int \<bar>z\<bar>"
  have rpos: "0 < r" unfolding r_def using assms by (intro round_int_pos) simp
  have td: "to_double z =
              (if 2 ^ 1024 \<le> r then Infty (0 < z) else Fin (if 0 < z then r else - r))"
    using False by (simp only: to_double_def r_def Let_def if_False)
  show ?thesis
  proof (cases "(2::int) ^ 1024 \<le> r")
    case True
    then show ?thesis using assms by (simp only: td if_True) (simp add: sgn_if)
  next
    case False
    then show ?thesis using assms rpos by (simp only: td if_False) (simp add: sgn_if)
  qed
qed

section \<open>Ordering\<close>

lemma located_blockNumber: "blockNumber this = Some x \<Longrightarrow> located this"
  by (simp add: located_def)

lemma compare_unlocated:
  "\<not> located this \<or> \<not> located that \<Longrightarrow> compare sc this that = Inl NotLocated"
  by (auto simp: compare_def)

lemma compare_by_blockNumber:
  assumes "blockNumber this = Some x" "blockNumber that = Some y"
  shows "compare sc this that =
           (if num_strict_eq (Some x) (Some y) then sc this that
            else Inr (JNum (js_minus (Some x) (Some y))))"
  using assms by (simp add: compare_def located_def)

lemma compare_by_timestamp:
  assumes "located this" "located that" "blockNumber this = None \<or> blockNumber that = None"
  shows "compare sc this that =
           (if num_strict_eq (timestamp this) (timestamp that) then sc this that
            else Inr (JNum (js_minus (timestamp this) (timestamp that))))"
  using assms by (auto simp: compare_def)

text \<open>
  The difference of two numbers other than \<open>NaN\<close> and not equal has the sign of their
  order, and one of the two is the smaller.
\<close>

lemma sign_js_minus:
  assumes "x \<noteq> NaN" "y \<noteq> NaN" "x \<noteq> y"
  shows "num_less (Some x) (Some y) \<Longrightarrow> cmp_sign (Inr (JNum (js_minus (Some x) (Some y)))) = Some (- 1)"
    and "num_less (Some y) (Some x) \<Longrightarrow> cmp_sign (Inr (JNum (js_minus (Some x) (Some y)))) = Some 1"
    and "num_less (Some x) (Some y) \<or> num_less (Some y) (Some x)"
proof -
  have fin: "cmp_sign (Inr (JNum (to_double (a - b)))) = Some (sgn (a - b))" if "a \<noteq> b" for a b :: int
    using that by (intro sign_to_double) simp
  show "num_less (Some x) (Some y) \<Longrightarrow> cmp_sign (Inr (JNum (js_minus (Some x) (Some y)))) = Some (- 1)"
    using assms by (cases x; cases y) (auto simp: fin sgn_if)
  show "num_less (Some y) (Some x) \<Longrightarrow> cmp_sign (Inr (JNum (js_minus (Some x) (Some y)))) = Some 1"
    using assms by (cases x; cases y) (auto simp: fin sgn_if)
  show "num_less (Some x) (Some y) \<or> num_less (Some y) (Some x)"
    using assms by (cases x; cases y) auto
qed

text \<open>
  Claim C5, as stated: unless it fails as not located, \<open>compare\<close> orders by block
  number, or by timestamp when either block number is undefined, or delegates when the
  chosen values are equal. It fails for two located signals of which one has a block
  number only and the other a timestamp only: the chosen values are \<open>undefined\<close> and
  100, and the result is \<open>NaN\<close>, which is no order and no delegation.
\<close>

theorem compare_undefined_key_counterexample:
  "located (Torrent_new ''a'' \<lparr>signed = [], params = [(''blockNumber'', JNum (Fin 10))]\<rparr>) \<and>
   located (Torrent_new ''b'' \<lparr>signed = [], params = [(''timestamp'', JNum (Fin 100))]\<rparr>) \<and>
   compare uuid_compare
     (Torrent_new ''a'' \<lparr>signed = [], params = [(''blockNumber'', JNum (Fin 10))]\<rparr>)
     (Torrent_new ''b'' \<lparr>signed = [], params = [(''timestamp'', JNum (Fin 100))]\<rparr>)
   = Inr (JNum NaN)"
  by code_simp

text \<open>
  Claim C5, amended. \<open>compare\<close> fails with a not-located error unless both signals are
  located. When both block numbers are defined, are numbers (not \<open>NaN\<close>) and differ, the
  result is negative if the first is the smaller and positive if it is the larger, and one
  of the two holds. When either block number is undefined and both timestamps are
  defined, are numbers and differ, the same holds of the timestamps. When the chosen pair
  is one and the same number, the result is that of the comparator of the wrapped message
  class.
\<close>

theorem compare_defined_keys:
  "(\<not> (located this \<and> located that) \<longrightarrow> compare sc this that = Inl NotLocated) \<and>
   (blockNumber this = Some x \<and> blockNumber that = Some y \<and> x \<noteq> NaN \<and> y \<noteq> NaN \<and> x \<noteq> y \<longrightarrow>
      (num_less (Some x) (Some y) \<longrightarrow> cmp_sign (compare sc this that) = Some (- 1)) \<and>
      (num_less (Some y) (Some x) \<longrightarrow> cmp_sign (compare sc this that) = Some 1) \<and>
      (num_less (Some x) (Some y) \<or> num_less (Some y) (Some x))) \<and>
   ((blockNumber this = None \<or> blockNumber that = None) \<and>
    timestamp this = Some x \<and> timestamp that = Some y \<and> x \<noteq> NaN \<and> y \<noteq> NaN \<and> x \<noteq> y \<longrightarrow>
      (num_less (Some x) (Some y) \<longrightarrow> cmp_sign (compare sc this that) = Some (- 1)) \<and>
      (num_less (Some y) (Some x) \<longrightarrow> cmp_sign (compare sc this that) = Some 1) \<and>
      (num_less (Some x) (Some y) \<or> num_less (Some y) (Some x))) \<and>
   (blockNumber this = Some x \<and> blockNumber that = Some x \<and> x \<noteq> NaN \<longrightarrow>
      compare sc this that = sc this that) \<and>
   ((blockNumber this = None \<or> blockNumber that = None) \<and>
    timestamp this = Some x \<and> timestamp that = Some x \<and> x \<noteq> NaN \<longrightarrow>
      compare sc this that = sc this that)"
proof (intro conjI impI)
  assume "\<not> (located this \<and> located that)"
  then show "compare sc this that = Inl NotLocated" by (simp add: compare_unlocated)
next
  assume h: "blockNumber this = Some x \<and> blockNumber that = Some y \<and> x \<noteq> NaN \<and> y \<noteq> NaN \<and> x \<noteq> y"
  then have c: "compare sc this that = Inr (JNum (js_minus (Some x) (Some y)))"
    by (simp add: compare_by_blockNumber num_strict_eq_def)
  show "num_less (Some x) (Some y) \<or> num_less (Some y) (Some x)"
    using h sign_js_minus(3) by blast
  { assume "num_less (Some x) (Some y)"
    then show "cmp_sign (compare sc this that) = Some (- 1)"
      using h sign_js_minus(1)[of x y] unfolding c by blast }
  { assume "num_less (Some y) (Some x)"
    then show "cmp_sign (compare sc this that) = Some 1"
      using h sign_js_minus(2)[of x y] unfolding c by blast }
next
  assume h: "(blockNumber this = None \<or> blockNumber that = None) \<and>
    timestamp this = Some x \<and> timestamp that = Some y \<and> x \<noteq> NaN \<and> y \<noteq> NaN \<and> x \<noteq> y"
  then have "located this" "located that" by (simp_all add: located_def)
  then have c: "compare sc this that = Inr (JNum (js_minus (Some x) (Some y)))"
    using h compare_by_timestamp[of this that sc] by (simp add: num_strict_eq_def)
  show "num_less (Some x) (Some y) \<or> num_less (Some y) (Some x)"
    using h sign_js_minus(3) by blast
  { assume "num_less (Some x) (Some y)"
    then show "cmp_sign (compare sc this that) = Some (- 1)"
      using h sign_js_minus(1)[of x y] unfolding c by blast }
  { assume "num_less (Some y) (Some x)"
    then show "cmp_sign (compare sc this that) = Some 1"
      using h sign_js_minus(2)[of x y] unfolding c by blast }
next
  assume "blockNumber this = Some x \<and> blockNumber that = Some x \<and> x \<noteq> NaN"
  then show "compare sc this that = sc this that"
    by (simp add: compare_by_blockNumber num_strict_eq_def)
next
  assume h: "(blockNumber this = None \<or> blockNumber that = None) \<and>
    timestamp this = Some x \<and> timestamp that = Some x \<and> x \<noteq> NaN"
  then have "located this" "located that" by (simp_all add: located_def)
  then show "compare sc this that = sc this that"
    using h compare_by_timestamp[of this that sc] by (simp add: num_strict_eq_def)
qed

theorem compare_defined_keys_witness:
  "cmp_sign (compare uuid_compare
      (Torrent_new ''a'' \<lparr>signed = [], params = [(''blockNumber'', JNum (Fin 10))]\<rparr>)
      (Torrent_new ''b'' \<lparr>signed = [], params = [(''blockNumber'', JStr ''12'')]\<rparr>)) = Some (- 1) \<and>
   cmp_sign (compare uuid_compare
      (Torrent_new ''a'' \<lparr>signed = [], params = [(''timestamp'', JNum (Fin 200))]\<rparr>)
      (Torrent_new ''b'' \<lparr>signed = [], params = [(''blockNumber'', JNum (Fin 12)), (''timestamp'', JNum (Fin 100))]\<rparr>)) = Some 1 \<and>
   compare uuid_compare
      (Torrent_new ''a'' \<lparr>signed = [], params = [(''blockNumber'', JNum (Fin 10))]\<rparr>)
      (Torrent_new ''b'' \<lparr>signed = [], params = [(''blockNumber'', JNum (Fin 10))]\<rparr>) = Inr (JNum (Fin (- 1))) \<and>
   compare uuid_compare
      (Torrent_new ''a'' \<lparr>signed = [], params = [(''blockNumber'', JNum (Fin 10))]\<rparr>)
      (Torrent_new ''b'' \<lparr>signed = [], params = [(''world'', JStr ''w'')]\<rparr>) = Inl NotLocated"
proof -
  define a10 where "a10 = Torrent_new ''a'' \<lparr>signed = [], params = [(''blockNumber'', JNum (Fin 10))]\<rparr>"
  define b12 where "b12 = Torrent_new ''b'' \<lparr>signed = [], params = [(''blockNumber'', JStr ''12'')]\<rparr>"
  define b10 where "b10 = Torrent_new ''b'' \<lparr>signed = [], params = [(''blockNumber'', JNum (Fin 10))]\<rparr>"
  define at where "at = Torrent_new ''a'' \<lparr>signed = [], params = [(''timestamp'', JNum (Fin 200))]\<rparr>"
  define bt where "bt = Torrent_new ''b'' \<lparr>signed = [], params = [(''blockNumber'', JNum (Fin 12)), (''timestamp'', JNum (Fin 100))]\<rparr>"
  define bw where "bw = Torrent_new ''b'' \<lparr>signed = [], params = [(''world'', JStr ''w'')]\<rparr>"
  have bn: "blockNumber a10 = Some (Fin 10)" "blockNumber b12 = Some (Fin 12)"
    "blockNumber b10 = Some (Fin 10)" "blockNumber at = None"
    unfolding a10_def b12_def b10_def at_def by code_simp+
  have ts: "timestamp at = Some (Fin 200)" "timestamp bt = Some (Fin 100)"
    unfolding at_def bt_def by code_simp+
  have loc: "\<not> located bw"
    unfolding bw_def by code_simp
  have u: "uuid_compare a10 b10 = Inr (JNum (Fin (- 1)))"
    unfolding a10_def b10_def by code_simp
  have "cmp_sign (compare uuid_compare a10 b12) = Some (- 1)"
    using compare_defined_keys[of a10 b12 uuid_compare "Fin 10" "Fin 12"] bn by simp
  moreover have "cmp_sign (compare uuid_compare at bt) = Some 1"
    using compare_defined_keys[of at bt uuid_compare "Fin 200" "Fin 100"] bn ts by simp
  moreover have "compare uuid_compare a10 b10 = Inr (JNum (Fin (- 1)))"
    using compare_defined_keys[of a10 b10 uuid_compare "Fin 10"] bn u by simp
  moreover have "compare uuid_compare a10 bw = Inl NotLocated"
    using compare_defined_keys[of a10 bw uuid_compare] loc by simp
  ultimately show ?thesis
    unfolding a10_def b12_def b10_def at_def bt_def bw_def by simp
qed

text \<open>
  Claim C6, as stated: two located signals with equal block numbers are compared by
  timestamp first and by identity after that. It fails for two signals with block
  number 10 and timestamps 100 and 200: \<open>compare\<close> answers with the identity comparison,
  which is positive, where the comparison by timestamp is negative.
\<close>

theorem equal_blockNumber_counterexample:
  "blockNumber (Torrent_new ''b'' \<lparr>signed = [], params = [(''blockNumber'', JNum (Fin 10)), (''timestamp'', JNum (Fin 100))]\<rparr>) = Some (Fin 10) \<and>
   blockNumber (Torrent_new ''a'' \<lparr>signed = [], params = [(''blockNumber'', JNum (Fin 10)), (''timestamp'', JNum (Fin 200))]\<rparr>) = Some (Fin 10) \<and>
   compare uuid_compare
     (Torrent_new ''b'' \<lparr>signed = [], params = [(''blockNumber'', JNum (Fin 10)), (''timestamp'', JNum (Fin 100))]\<rparr>)
     (Torrent_new ''a'' \<lparr>signed = [], params = [(''blockNumber'', JNum (Fin 10)), (''timestamp'', JNum (Fin 200))]\<rparr>)
   = Inr (JNum (Fin 1)) \<and>
   tiebreak_by_timestamp uuid_compare
     (Torrent_new ''b'' \<lparr>signed = [], params = [(''blockNumber'', JNum (Fin 10)), (''timestamp'', JNum (Fin 100))]\<rparr>)
     (Torrent_new ''a'' \<lparr>signed = [], params = [(''blockNumber'', JNum (Fin 10)), (''timestamp'', JNum (Fin 200))]\<rparr>)
   = Inr (JNum (Fin (- 100)))"
  by code_simp

text \<open>
  Claim C6, amended: for two signals whose block numbers are the same integer, both are
  located and \<open>compare\<close> returns the result of the identity comparator of the wrapped
  message class, without comparing timestamps; the result is a number other than zero
  exactly when that comparator's is.
\<close>

theorem equal_blockNumber_identity:
  assumes "blockNumber this = Some (Fin n)" and "blockNumber that = Some (Fin n)"
  shows "located this \<and> located that \<and> compare sc this that = sc this that \<and>
         (cmp_sign (compare sc this that) = Some (- 1) \<or> cmp_sign (compare sc this that) = Some 1
            \<longleftrightarrow> cmp_sign (sc this that) = Some (- 1) \<or> cmp_sign (sc this that) = Some 1)"
  using assms by (simp add: compare_by_blockNumber located_blockNumber num_strict_eq_def)

theorem equal_blockNumber_identity_witness:
  "compare uuid_compare
     (Torrent_new ''b'' \<lparr>signed = [], params = [(''blockNumber'', JNum (Fin 10)), (''timestamp'', JNum (Fin 100))]\<rparr>)
     (Torrent_new ''a'' \<lparr>signed = [], params = [(''blockNumber'', JNum (Fin 10)), (''timestamp'', JNum (Fin 200))]\<rparr>)
   = uuid_compare
     (Torrent_new ''b'' \<lparr>signed = [], params = [(''blockNumber'', JNum (Fin 10)), (''timestamp'', JNum (Fin 100))]\<rparr>)
     (Torrent_new ''a'' \<lparr>signed = [], params = [(''blockNumber'', JNum (Fin 10)), (''timestamp'', JNum (Fin 200))]\<rparr>)"
proof -
  have a: "blockNumber (Torrent_new ''b'' \<lparr>signed = [], params = [(''blockNumber'', JNum (Fin 10)), (''timestamp'', JNum (Fin 100))]\<rparr>) = Some (Fin 10)"
    by code_simp
  have b: "blockNumber (Torrent_new ''a'' \<lparr>signed = [], params = [(''blockNumber'', JNum (Fin 10)), (''timestamp'', JNum (Fin 200))]\<rparr>) = Some (Fin 10)"
    by code_simp
  show ?thesis using equal_blockNumber_identity[OF a b, of uuid_compare] by blast
qed

lemma keyed_order:
  fixes k :: "signal \<Rightarrow> int"
  assumes cmp: "\<And>a b. a \<in> S \<Longrightarrow> b \<in> S \<Longrightarrow>
                  compare sc a b =
                    (if k a = k b then sc a b else Inr (JNum (to_double (k a - k b))))"
    and ord: "strict_total_comparator S sc"
  shows "strict_total_comparator S (compare sc)"
proof -
  have nt: "cmp_sign (sc a b) = Some (- 1) \<or> cmp_sign (sc a b) = Some 1"
    if "a \<in> S" "b \<in> S" "a \<noteq> b" for a b
    using ord that unfolding strict_total_comparator_def by blast
  have as: "cmp_sign (sc a b) = map_option uminus (cmp_sign (sc b a))"
    if "a \<in> S" "b \<in> S" "a \<noteq> b" for a b
    using ord that unfolding strict_total_comparator_def by blast
  have tr: "cmp_sign (sc a d) = Some (- 1)"
    if "a \<in> S" "b \<in> S" "d \<in> S" "cmp_sign (sc a b) = Some (- 1)" "cmp_sign (sc b d) = Some (- 1)"
    for a b d
    using ord that unfolding strict_total_comparator_def by blast
  have eq: "compare sc a b = sc a b" if "a \<in> S" "b \<in> S" "k a = k b" for a b
    using cmp[OF that(1,2)] that(3) by simp
  have ne: "cmp_sign (compare sc a b) = Some (sgn (k a - k b))"
    if "a \<in> S" "b \<in> S" "k a \<noteq> k b" for a b
    using cmp[OF that(1,2)] that(3) sign_to_double[of "k a - k b"] by simp
  have lt: "cmp_sign (compare sc a b) = Some (- 1) \<longleftrightarrow>
            k a < k b \<or> (k a = k b \<and> cmp_sign (sc a b) = Some (- 1))"
    if "a \<in> S" "b \<in> S" for a b
  proof (cases "k a = k b")
    case True
    then show ?thesis by (simp add: eq[OF that True])
  next
    case False
    then show ?thesis by (simp add: ne[OF that False] sgn_if)
  qed
  have c1: "cmp_sign (compare sc a b) = Some (- 1) \<or> cmp_sign (compare sc a b) = Some 1"
    if "a \<in> S" "b \<in> S" "a \<noteq> b" for a b
  proof (cases "k a = k b")
    case True
    then show ?thesis using nt[OF that] by (simp only: eq[OF that(1,2) True])
  next
    case False
    then show ?thesis by (simp add: ne[OF that(1,2) False] sgn_if)
  qed
  have c2: "cmp_sign (compare sc a b) = map_option uminus (cmp_sign (compare sc b a))"
    if "a \<in> S" "b \<in> S" "a \<noteq> b" for a b
  proof (cases "k a = k b")
    case True
    then have "k b = k a" by simp
    then show ?thesis using as[OF that] by (simp only: eq[OF that(1,2) True] eq[OF that(2,1)])
  next
    case False
    then have "k b \<noteq> k a" by simp
    then show ?thesis
      by (simp add: ne[OF that(1,2) False] ne[OF that(2,1)] sgn_if)
  qed
  have c3: "cmp_sign (compare sc a d) = Some (- 1)"
    if "a \<in> S" "b \<in> S" "d \<in> S"
       "cmp_sign (compare sc a b) = Some (- 1) \<and> cmp_sign (compare sc b d) = Some (- 1)" for a b d
  proof -
    have ab: "k a < k b \<or> (k a = k b \<and> cmp_sign (sc a b) = Some (- 1))"
      using that(4) lt[OF that(1,2)] by blast
    have bd: "k b < k d \<or> (k b = k d \<and> cmp_sign (sc b d) = Some (- 1))"
      using that(4) lt[OF that(2,3)] by blast
    have "k a < k d \<or> (k a = k d \<and> cmp_sign (sc a d) = Some (- 1))"
      using ab bd tr[OF that(1,2,3)] by linarith
    then show ?thesis using lt[OF that(1,3)] by blast
  qed
  show ?thesis
    unfolding strict_total_comparator_def using c1 c2 c3 by blast
qed

text \<open>
  Claim C4, as stated: on every set of located signals \<open>compare\<close> is a strict total
  order. It fails on three located signals of which one has no block number: the first
  sorts before the second and the second before the third by timestamp, and the third
  sorts before the first by block number.
\<close>

theorem mixed_keys_counterexample:
  "located (Torrent_new ''a'' \<lparr>signed = [], params = [(''blockNumber'', JNum (Fin 1)), (''timestamp'', JNum (Fin 10))]\<rparr>) \<and>
   located (Torrent_new ''b'' \<lparr>signed = [], params = [(''timestamp'', JNum (Fin 20))]\<rparr>) \<and>
   located (Torrent_new ''c'' \<lparr>signed = [], params = [(''blockNumber'', JNum (Fin 0)), (''timestamp'', JNum (Fin 30))]\<rparr>) \<and>
   cmp_sign (compare uuid_compare
     (Torrent_new ''a'' \<lparr>signed = [], params = [(''blockNumber'', JNum (Fin 1)), (''timestamp'', JNum (Fin 10))]\<rparr>)
     (Torrent_new ''b'' \<lparr>signed = [], params = [(''timestamp'', JNum (Fin 20))]\<rparr>)) = Some (- 1) \<and>
   cmp_sign (compare uuid_compare
     (Torrent_new ''b'' \<lparr>signed = [], params = [(''timestamp'', JNum (Fin 20))]\<rparr>)
     (Torrent_new ''c'' \<lparr>signed = [], params = [(''blockNumber'', JNum (Fin 0)), (''timestamp'', JNum (Fin 30))]\<rparr>)) = Some (- 1) \<and>
   cmp_sign (compare uuid_compare
     (Torrent_new ''a'' \<lparr>signed = [], params = [(''blockNumber'', JNum (Fin 1)), (''timestamp'', JNum (Fin 10))]\<rparr>)
     (Torrent_new ''c'' \<lparr>signed = [], params = [(''blockNumber'', JNum (Fin 0)), (''timestamp'', JNum (Fin 30))]\<rparr>)) = Some 1"
  by code_simp

text \<open>
  Claim C4, amended: on a set of signals that all have an integer block number, or that
  all have no block number and an integer timestamp, \<open>compare\<close> is a strict total order
  (no ties between distinct signals, antisymmetric, transitive) whenever the identity
  comparator of the wrapped message class is one on that set.
\<close>

theorem uniform_keys_total_order:
  assumes "(\<forall>x\<in>S. \<exists>n. blockNumber x = Some (Fin n)) \<or>
           (\<forall>x\<in>S. blockNumber x = None \<and> (\<exists>n. timestamp x = Some (Fin n)))"
    and "strict_total_comparator S sc"
  shows "strict_total_comparator S (compare sc)"
  using assms(1)
proof
  assume bn: "\<forall>x\<in>S. \<exists>n. blockNumber x = Some (Fin n)"
  define k where "k x = (case blockNumber x of Some (Fin n) \<Rightarrow> n | _ \<Rightarrow> 0)" for x
  have key: "blockNumber x = Some (Fin (k x))" if "x \<in> S" for x
    using bn that by (auto simp: k_def)
  show ?thesis
  proof (rule keyed_order[where k = k, OF _ assms(2)])
    fix a b assume "a \<in> S" "b \<in> S"
    then show "compare sc a b =
                 (if k a = k b then sc a b else Inr (JNum (to_double (k a - k b))))"
      using compare_by_blockNumber[OF key key, of a b sc] by (simp add: num_strict_eq_def)
  qed
next
  assume ts: "\<forall>x\<in>S. blockNumber x = None \<and> (\<exists>n. timestamp x = Some (Fin n))"
  define k where "k x = (case timestamp x of Some (Fin n) \<Rightarrow> n | _ \<Rightarrow> 0)" for x
  have key: "timestamp x = Some (Fin (k x))" and nb: "blockNumber x = None" and loc: "located x"
    if "x \<in> S" for x
    using ts that by (auto simp: k_def located_def)
  show ?thesis
  proof (rule keyed_order[where k = k, OF _ assms(2)])
    fix a b assume ab: "a \<in> S" "b \<in> S"
    then show "compare sc a b =
                 (if k a = k b then sc a b else Inr (JNum (to_double (k a - k b))))"
      using compare_by_timestamp[of a b sc] loc nb key by (simp add: num_strict_eq_def)
  qed
qed

theorem uniform_keys_total_order_witness:
  "strict_total_comparator
     {Torrent_new ''a'' \<lparr>signed = [], params = [(''blockNumber'', JNum (Fin 10))]\<rparr>,
      Torrent_new ''b'' \<lparr>signed = [], params = [(''blockNumber'', JNum (Fin 10))]\<rparr>,
      Torrent_new ''c'' \<lparr>signed = [], params = [(''blockNumber'', JNum (Fin 12))]\<rparr>}
     (compare uuid_compare)"
proof -
  define a where "a = Torrent_new ''a'' \<lparr>signed = [], params = [(''blockNumber'', JNum (Fin 10))]\<rparr>"
  define b where "b = Torrent_new ''b'' \<lparr>signed = [], params = [(''blockNumber'', JNum (Fin 10))]\<rparr>"
  define c where "c = Torrent_new ''c'' \<lparr>signed = [], params = [(''blockNumber'', JNum (Fin 12))]\<rparr>"
  have bn: "blockNumber a = Some (Fin 10)" "blockNumber b = Some (Fin 10)" "blockNumber c = Some (Fin 12)"
    unfolding a_def b_def c_def by code_simp+
  have u: "uuid a = ''a''" "uuid b = ''b''" "uuid c = ''c''"
    by (simp_all add: a_def b_def c_def Torrent_new_def)
  have keys: "(\<forall>x\<in>{a, b, c}. \<exists>n. blockNumber x = Some (Fin n)) \<or>
              (\<forall>x\<in>{a, b, c}. blockNumber x = None \<and> (\<exists>n. timestamp x = Some (Fin n)))"
    using bn by simp
  have ident: "strict_total_comparator {a, b, c} uuid_compare"
    unfolding strict_total_comparator_def by (simp add: uuid_compare_def u)
  show ?thesis
    using uniform_keys_total_order[OF keys ident] unfolding a_def b_def c_def .
qed

end
